theory Spec2Isabelle
  imports Complex_Main
begin

section \<open>JavaScript values\<close>

text \<open>
  A JavaScript number is NaN, one of the two infinities, or a finite double. A finite
  double is carried by its exact rational value; \<open>+0\<close> and \<open>-0\<close> are both
  \<open>Num 0\<close> (the handlers only compare and floor numbers, which does not tell the two
  zeros apart).
\<close>

datatype jsnumber = NaN | PosInfinity | NegInfinity | Num rat

text \<open>A value decoded from JSON or read from a query string; objects and arrays are opaque.\<close>

datatype jsvalue = Undefined | Null | Bool bool | Number jsnumber | Str string | Object

text \<open>Truthiness of a value, as tested by \<open>if (v)\<close>, \<open>!v\<close> and \<open>v ? a : b\<close>.\<close>

fun truthy :: "jsvalue \<Rightarrow> bool" where
  "truthy Undefined = False"
| "truthy Null = False"
| "truthy (Bool b) = b"
| "truthy (Number (Num q)) = (q \<noteq> 0)"
| "truthy (Number NaN) = False"
| "truthy (Number _) = True"
| "truthy (Str s) = (s \<noteq> [])"
| "truthy Object = True"

text \<open>Truthiness of an optional string (\<open>string | undefined\<close>): present and not empty.\<close>

fun truthyStr :: "string option \<Rightarrow> bool" where
  "truthyStr None = False"
| "truthyStr (Some s) = (s \<noteq> [])"

text \<open>
  Strings are lists of code units below 256. The white space and line terminators that
  \<open>String.prototype.trim\<close> strips are, in that range, U+0009 to U+000D, U+0020 and
  U+00A0.
\<close>

definition isWhiteSpace :: "char \<Rightarrow> bool" where
  "isWhiteSpace c = ((of_char c :: nat) \<in> {9, 10, 11, 12, 13, 32, 160})"

definition trim :: "string \<Rightarrow> string" where
  "trim s = rev (dropWhile isWhiteSpace (rev (dropWhile isWhiteSpace s)))"

text \<open>The decimal text of a non-negative integer, as a template literal prints it.\<close>

fun decimal :: "nat \<Rightarrow> string" where
  "decimal n = (if n < 10 then [''0123456789'' ! n]
                else decimal (n div 10) @ [''0123456789'' ! (n mod 10)])"

declare decimal.simps [simp del]

section \<open>Constants of the channel route\<close>

definition MAX_RESULTS :: nat where "MAX_RESULTS = 100"
definition CHUNK_SIZE :: nat where "CHUNK_SIZE = 50"
definition MAX_ALLOWED_SUBSCRIBERS :: rat where "MAX_ALLOWED_SUBSCRIBERS = 10000"

section \<open>Data of the channel route\<close>

record YouTubeChannel =
  id_ch :: string
  title_ch :: string
  customUrl :: "string option"
  thumbnailUrl :: "string option"
  country_ch :: "string option"
  subscriberCount :: "rat option"
  viewCount :: "rat option"
  videoCount :: "rat option"
  etag_ch :: "string option"

text \<open>An item of the search response: the value of \<open>item?.id?.channelId\<close>.\<close>

record search_item =
  channelId :: "string option"

record search_data =
  sd_items :: "search_item list option"
  sd_nextPageToken :: "string option"

text \<open>
  An item of the channels response. \<open>thumbnails\<close> holds the three urls reached by
  \<open>thumbnails?.high?.url\<close>, \<open>thumbnails?.medium?.url\<close> and
  \<open>thumbnails?.default?.url\<close>.
\<close>

record thumbnails =
  high_url :: "string option"
  medium_url :: "string option"
  default_url :: "string option"

record snippet =
  sn_title :: "string option"
  sn_customUrl :: "string option"
  sn_thumbnails :: "thumbnails option"
  sn_country :: "string option"

record statistics =
  hiddenSubscriberCount :: jsvalue
  st_subscriberCount :: jsvalue
  st_viewCount :: jsvalue
  st_videoCount :: jsvalue

record detail_item =
  di_id :: "string option"
  di_snippet :: "snippet option"
  di_statistics :: "statistics option"
  di_etag :: "string option"

record detail_data =
  dd_items :: "detail_item list option"

text \<open>
  The response of \<open>fetch\<close>: \<open>ok\<close>, \<open>status\<close>, the body read by \<open>text()\<close>, and the
  body decoded by \<open>json()\<close> (\<open>Inl\<close> the message of the exception \<open>json()\<close> raises).
  A \<open>fetch\<close> that rejects is \<open>Inl\<close> of the rejection's message.
\<close>

record 'j http_res =
  ok :: bool
  status :: nat
  body_text :: string
  json :: "string + 'j"

type_synonym 'j fetched = "string + 'j http_res"

text \<open>
  The query parameters that vary between the requests of one run; \<open>part\<close>, \<open>q\<close>,
  \<open>type\<close>, \<open>regionCode\<close> and \<open>relevanceLanguage\<close> are constants of the source.
  \<open>sr_pageToken\<close> is \<open>None\<close> when the parameter is not set.
\<close>

record search_request =
  sr_maxResults :: int
  sr_key :: string
  sr_pageToken :: "string option"

text \<open>\<open>dr_ids\<close> is the list that \<open>candidateIds.join(",")\<close> joins.\<close>

record detail_request =
  dr_ids :: "string list"
  dr_key :: string

text \<open>
  The upstream API: each endpoint answers a request in a state of the outside world
  \<open>'u\<close> and leaves a new state, so that two equal requests may be answered differently.
\<close>

record 'u youtube =
  fetchSearch :: "'u \<Rightarrow> search_request \<Rightarrow> search_data fetched \<times> 'u"
  fetchChannels :: "'u \<Rightarrow> detail_request \<Rightarrow> detail_data fetched \<times> 'u"

datatype api_call =
  SearchCall search_request "search_data fetched"
| ChannelsCall detail_request "detail_data fetched"

section \<open>numberOrUndefined and parseBound\<close>

text \<open>
  \<open>toNumber\<close> is JavaScript's \<open>Number(value)\<close> coercion, a parameter of the model.
\<close>

definition numberOrUndefined :: "(jsvalue \<Rightarrow> jsnumber) \<Rightarrow> jsvalue \<Rightarrow> rat option" where
  "numberOrUndefined toNumber v =
     (case v of
        Null \<Rightarrow> None
      | Undefined \<Rightarrow> None
      | _ \<Rightarrow>
         (let num = (case v of Str s \<Rightarrow> toNumber v | Number n \<Rightarrow> n | _ \<Rightarrow> toNumber v)
          in case num of Num q \<Rightarrow> Some q | _ \<Rightarrow> None))"

definition parseBound :: "(jsvalue \<Rightarrow> jsnumber) \<Rightarrow> string option \<Rightarrow> rat \<Rightarrow> string + rat" where
  "parseBound toNumber v fallback =
     (case v of
        None \<Rightarrow> Inr fallback
      | Some s \<Rightarrow>
         if trim s = [] then Inr fallback
         else (case toNumber (Str s) of
                 Num q \<Rightarrow>
                   if q < 0 then Inl ''Invalid numeric parameter''
                   else Inr (of_int \<lfloor>q\<rfloor>)
               | _ \<Rightarrow> Inl ''Invalid numeric parameter''))"

section \<open>fetchYouTubeChannels\<close>

text \<open>
  The local variables of \<open>fetchYouTubeChannels\<close>, with the state of the upstream API
  and the calls made so far.
\<close>

record 'u loop_state =
  collected :: "YouTubeChannel list"
  seen :: "string set"
  nextPageToken :: "string option"
  upstream :: 'u
  calls :: "api_call list"

text \<open>
  The loop over \<open>searchData.items\<close> (lines 74 to 80): the pair is \<open>candidateIds\<close> and
  \<open>seen\<close>.
\<close>

fun collectCandidates ::
  "int \<Rightarrow> search_item list \<Rightarrow> string list \<times> string set \<Rightarrow> string list \<times> string set" where
  "collectCandidates remaining [] (candidateIds, sn) = (candidateIds, sn)"
| "collectCandidates remaining (item # rest) (candidateIds, sn) =
     (if \<not> truthyStr (channelId item) \<or> the (channelId item) \<in> sn
      then collectCandidates remaining rest (candidateIds, sn)
      else
        (let candidateIds' = candidateIds @ [the (channelId item)];
             sn' = insert (the (channelId item)) sn
         in if int (length candidateIds') \<ge> remaining then (candidateIds', sn')
            else collectCandidates remaining rest (candidateIds', sn')))"

text \<open>The channel record built from one item of the channels response (lines 104 to 124).\<close>

definition channelOfItem :: "(jsvalue \<Rightarrow> jsnumber) \<Rightarrow> string \<Rightarrow> detail_item \<Rightarrow> YouTubeChannel" where
  "channelOfItem toNumber i item =
     (let sn = (case di_snippet item of
                  None \<Rightarrow> \<lparr>sn_title = None, sn_customUrl = None, sn_thumbnails = None,
                            sn_country = None\<rparr>
                | Some s \<Rightarrow> s);
          stats = (case di_statistics item of
                     None \<Rightarrow> \<lparr>hiddenSubscriberCount = Undefined, st_subscriberCount = Undefined,
                               st_viewCount = Undefined, st_videoCount = Undefined\<rparr>
                   | Some s \<Rightarrow> s);
          subscribers = (if truthy (hiddenSubscriberCount stats) then None
                         else numberOrUndefined toNumber (st_subscriberCount stats))
      in \<lparr>id_ch = i,
          title_ch = (case sn_title sn of None \<Rightarrow> i | Some t \<Rightarrow> t),
          customUrl = sn_customUrl sn,
          thumbnailUrl =
            (case sn_thumbnails sn of
               None \<Rightarrow> None
             | Some th \<Rightarrow>
                 (case high_url th of
                    Some u \<Rightarrow> Some u
                  | None \<Rightarrow> (case medium_url th of Some u \<Rightarrow> Some u | None \<Rightarrow> default_url th))),
          country_ch = sn_country sn,
          subscriberCount = subscribers,
          viewCount = numberOrUndefined toNumber (st_viewCount stats),
          videoCount = numberOrUndefined toNumber (st_videoCount stats),
          etag_ch = di_etag item\<rparr>)"

text \<open>The loop over \<open>detailData.items\<close> (lines 101 to 125), filling \<open>detailMap\<close>.\<close>

fun buildDetailMap ::
  "(jsvalue \<Rightarrow> jsnumber) \<Rightarrow> detail_item list \<Rightarrow> (string \<rightharpoonup> YouTubeChannel) \<Rightarrow> (string \<rightharpoonup> YouTubeChannel)" where
  "buildDetailMap toNumber [] detailMap = detailMap"
| "buildDetailMap toNumber (item # rest) detailMap =
     (if \<not> truthyStr (di_id item) then buildDetailMap toNumber rest detailMap
      else buildDetailMap toNumber rest
             (detailMap(the (di_id item) \<mapsto> channelOfItem toNumber (the (di_id item)) item)))"

text \<open>The loop over \<open>candidateIds\<close> (lines 127 to 131), pushing onto \<open>collected\<close>.\<close>

fun mergeDetails ::
  "(string \<rightharpoonup> YouTubeChannel) \<Rightarrow> string list \<Rightarrow> YouTubeChannel list \<Rightarrow> YouTubeChannel list" where
  "mergeDetails detailMap [] coll = coll"
| "mergeDetails detailMap (i # rest) coll =
     (case detailMap i of
        None \<Rightarrow> mergeDetails detailMap rest coll
      | Some channel \<Rightarrow> mergeDetails detailMap rest (coll @ [channel]))"

text \<open>How one pass through the body of the \<open>while\<close> loop ends.\<close>

datatype 'a step = Continue 'a | Break 'a | Throw string 'a

definition searchRequest :: "string \<Rightarrow> 'u loop_state \<Rightarrow> search_request" where
  "searchRequest apiKey st =
     \<lparr>sr_maxResults = min (int CHUNK_SIZE) (int MAX_RESULTS - int (length (collected st))),
      sr_key = apiKey,
      sr_pageToken = (if truthyStr (nextPageToken st) then nextPageToken st else None)\<rparr>"

text \<open>
  The part of the loop body after the search response is decoded (lines 73 to 134).
\<close>

definition afterSearch ::
  "(jsvalue \<Rightarrow> jsnumber) \<Rightarrow> 'u youtube \<Rightarrow> string \<Rightarrow> 'u loop_state \<Rightarrow> search_data \<Rightarrow> 'u loop_state step" where
  "afterSearch toNumber api apiKey st searchData =
     (let remaining = int MAX_RESULTS - int (length (collected st));
          (candidateIds, sn) =
             collectCandidates remaining
               (case sd_items searchData of None \<Rightarrow> [] | Some xs \<Rightarrow> xs) ([], seen st);
          st1 = st\<lparr>seen := sn\<rparr>
      in if candidateIds = [] then
           (if truthyStr (sd_nextPageToken searchData)
            then Continue (st1\<lparr>nextPageToken := sd_nextPageToken searchData\<rparr>)
            else Break (st1\<lparr>nextPageToken := sd_nextPageToken searchData\<rparr>))
         else
           (let req = \<lparr>dr_ids = candidateIds, dr_key = apiKey\<rparr>;
                (res, u) = fetchChannels api (upstream st1) req;
                st2 = st1\<lparr>upstream := u, calls := calls st1 @ [ChannelsCall req res]\<rparr>
            in case res of
                 Inl msg \<Rightarrow> Throw msg st2
               | Inr detailRes \<Rightarrow>
                   if \<not> ok detailRes then
                     Throw (''YouTube channels API error: '' @ decimal (status detailRes)
                            @ '' '' @ body_text detailRes) st2
                   else
                     (case json detailRes of
                        Inl msg \<Rightarrow> Throw msg st2
                      | Inr detailData \<Rightarrow>
                          (let detailMap =
                                 buildDetailMap toNumber
                                   (case dd_items detailData of None \<Rightarrow> [] | Some xs \<Rightarrow> xs)
                                   Map.empty;
                               st3 = st2\<lparr>collected := mergeDetails detailMap candidateIds (collected st2),
                                         nextPageToken := sd_nextPageToken searchData\<rparr>
                           in if truthyStr (sd_nextPageToken searchData) then Continue st3
                              else Break st3))))"

text \<open>One pass through the body of the \<open>while\<close> loop (lines 55 to 134).\<close>

definition iteration ::
  "(jsvalue \<Rightarrow> jsnumber) \<Rightarrow> 'u youtube \<Rightarrow> string \<Rightarrow> 'u loop_state \<Rightarrow> 'u loop_state step" where
  "iteration toNumber api apiKey st =
     (let req = searchRequest apiKey st;
          (res, u) = fetchSearch api (upstream st) req;
          st1 = st\<lparr>upstream := u, calls := calls st @ [SearchCall req res]\<rparr>
      in case res of
           Inl msg \<Rightarrow> Throw msg st1
         | Inr searchRes \<Rightarrow>
             if \<not> ok searchRes then
               Throw (''YouTube search API error: '' @ decimal (status searchRes)
                      @ '' '' @ body_text searchRes) st1
             else
               (case json searchRes of
                  Inl msg \<Rightarrow> Throw msg st1
                | Inr searchData \<Rightarrow> afterSearch toNumber api apiKey st1 searchData))"

text \<open>
  The \<open>while\<close> loop. The upstream API may hand out continuation tokens for ever, so the
  loop is given a number of passes it may make; \<open>None\<close> is a run that needs more.
  \<open>Inl\<close> is the message of the error thrown.
\<close>

fun fetchLoop ::
  "nat \<Rightarrow> (jsvalue \<Rightarrow> jsnumber) \<Rightarrow> 'u youtube \<Rightarrow> string \<Rightarrow> 'u loop_state
     \<Rightarrow> (string + unit) option \<times> 'u loop_state" where
  "fetchLoop fuel toNumber api apiKey st =
     (if \<not> length (collected st) < MAX_RESULTS then (Some (Inr ()), st)
      else
        (case fuel of
           0 \<Rightarrow> (None, st)
         | Suc n \<Rightarrow>
            (case iteration toNumber api apiKey st of
               Continue st' \<Rightarrow> fetchLoop n toNumber api apiKey st'
             | Break st' \<Rightarrow> (Some (Inr ()), st')
             | Throw msg st' \<Rightarrow> (Some (Inl msg), st'))))"

declare fetchLoop.simps [simp del]

definition initialState :: "'u \<Rightarrow> 'u loop_state" where
  "initialState u = \<lparr>collected = [], seen = {}, nextPageToken = None, upstream = u, calls = []\<rparr>"

text \<open>
  \<open>fetchYouTubeChannels\<close>: the value returned (or the error thrown), with the final
  state, which holds the calls made.
\<close>

definition fetchYouTubeChannels ::
  "nat \<Rightarrow> (jsvalue \<Rightarrow> jsnumber) \<Rightarrow> 'u youtube \<Rightarrow> string \<Rightarrow> 'u
     \<Rightarrow> (string + YouTubeChannel list) option \<times> 'u loop_state" where
  "fetchYouTubeChannels fuel toNumber api apiKey u =
     (case fetchLoop fuel toNumber api apiKey (initialState u) of
        (None, st) \<Rightarrow> (None, st)
      | (Some (Inl msg), st) \<Rightarrow> (Some (Inl msg), st)
      | (Some (Inr _), st) \<Rightarrow> (Some (Inr (take MAX_RESULTS (collected st))), st))"

section \<open>The channel route's handler\<close>

record request =
  minSubscribers :: "string option"
  maxSubscribers :: "string option"

record env =
  YOUTUBE_API_KEY :: "string option"
  SUPABASE_URL :: "string option"
  SUPABASE_SERVICE_ROLE_KEY :: "string option"
  SUPABASE_ANON_KEY :: "string option"
  YT_CHANNEL_ID :: "string option"

datatype body = ErrorBody string | StatusMessage nat string | Inserted nat

record http_response =
  res_status :: nat
  res_body :: body

record channelRow =
  row_id :: string
  row_title :: string
  custom_url :: "string option"
  thumbnail_url :: "string option"
  row_country :: "string option"
  row_etag :: "string option"

record statsRow =
  channel_id :: string
  subscriber_count :: "rat option"
  view_count :: "rat option"
  video_count :: "rat option"

record videoRow =
  video_id :: "string option"
  video_title :: "string option"
  published_at :: "string option"

text \<open>
  A call of \<open>supabase.from(table).upsert(rows, {onConflict})\<close>: on \<open>channels\<close> (conflict
  key \<open>id\<close>), on \<open>channel_stats\<close> (conflict key \<open>channel_id\<close>) and on \<open>videos\<close>
  (conflict key \<open>video_id\<close>). The store answers a call with the message of its error,
  if any, and a new state of its own.
\<close>

datatype store_call =
  UpsertChannels "channelRow list"
| UpsertStats "statsRow list"
| UpsertVideos "videoRow list"

type_synonym 's store = "'s \<Rightarrow> store_call \<Rightarrow> string option \<times> 's"

text \<open>\<open>getSupabaseClient\<close>: the url and key the client is created with, or \<open>None\<close>.\<close>

definition getSupabaseClient :: "env \<Rightarrow> (string \<times> string) option" where
  "getSupabaseClient e =
     (let supabaseUrl = SUPABASE_URL e;
          supabaseKey = (case SUPABASE_SERVICE_ROLE_KEY e of
                           None \<Rightarrow> SUPABASE_ANON_KEY e
                         | Some k \<Rightarrow> Some k)
      in if \<not> truthyStr supabaseUrl \<or> \<not> truthyStr supabaseKey then None
         else Some (the supabaseUrl, the supabaseKey))"

text \<open>
  Lines 142 to 169 of the handler: the response that rejects the request, or the two
  bounds \<open>minSubscribers\<close> and \<open>maxSubscribers\<close> as they stand after line 169.
\<close>

definition checkBounds :: "(jsvalue \<Rightarrow> jsnumber) \<Rightarrow> request \<Rightarrow> http_response + rat \<times> rat" where
  "checkBounds toNumber req =
     (case parseBound toNumber (minSubscribers req) 0 of
        Inl message \<Rightarrow> Inl \<lparr>res_status = 400, res_body = ErrorBody message\<rparr>
      | Inr minS \<Rightarrow>
         (case parseBound toNumber (maxSubscribers req) MAX_ALLOWED_SUBSCRIBERS of
            Inl message \<Rightarrow> Inl \<lparr>res_status = 400, res_body = ErrorBody message\<rparr>
          | Inr maxS \<Rightarrow>
             if minS > MAX_ALLOWED_SUBSCRIBERS then
               Inl \<lparr>res_status = 400,
                    res_body = ErrorBody (''minSubscribers must be less than or equal to ''
                                 @ decimal (nat \<lfloor>MAX_ALLOWED_SUBSCRIBERS\<rfloor>))\<rparr>
             else
               (let maxS' = (if maxS > MAX_ALLOWED_SUBSCRIBERS then MAX_ALLOWED_SUBSCRIBERS
                             else maxS)
                in if minS > maxS' then
                     Inl \<lparr>res_status = 400,
                          res_body = ErrorBody
                            ''minSubscribers must be less than or equal to maxSubscribers''\<rparr>
                   else Inr (minS, maxS'))))"

definition toChannelRow :: "YouTubeChannel \<Rightarrow> channelRow" where
  "toChannelRow channel =
     \<lparr>row_id = id_ch channel, row_title = title_ch channel, custom_url = customUrl channel,
      thumbnail_url = thumbnailUrl channel, row_country = country_ch channel,
      row_etag = etag_ch channel\<rparr>"

definition toStatsRow :: "YouTubeChannel \<Rightarrow> statsRow" where
  "toStatsRow channel =
     \<lparr>channel_id = id_ch channel, subscriber_count = subscriberCount channel,
      view_count = viewCount channel, video_count = videoCount channel\<rparr>"

text \<open>
  Lines 187 to 222 of the handler: the response, the calls made to the upstream API and
  the calls made to the store. \<open>None\<close> is a run whose discovery loop needs more passes.
\<close>

definition refreshChannels ::
  "nat \<Rightarrow> (jsvalue \<Rightarrow> jsnumber) \<Rightarrow> 'u youtube \<Rightarrow> 's store \<Rightarrow> string \<Rightarrow> 'u \<Rightarrow> 's
     \<Rightarrow> (http_response \<times> api_call list \<times> store_call list) option" where
  "refreshChannels fuel toNumber api upsert youtubeApiKey u s =
     (case fetchYouTubeChannels fuel toNumber api youtubeApiKey u of
        (None, st) \<Rightarrow> None
      | (Some (Inl message), st) \<Rightarrow>
          Some (\<lparr>res_status = 500, res_body = ErrorBody message\<rparr>, calls st, [])
      | (Some (Inr channels), st) \<Rightarrow>
          (let channelRows = map toChannelRow channels;
               statsRows = map toStatsRow channels;
               (channelError, s1, log1) =
                  (if length channelRows > 0
                   then (case upsert s (UpsertChannels channelRows) of
                           (e, s') \<Rightarrow> (e, s', [UpsertChannels channelRows]))
                   else (None, s, []))
           in case channelError of
                Some message \<Rightarrow>
                  Some (\<lparr>res_status = 500, res_body = ErrorBody message\<rparr>, calls st, log1)
              | None \<Rightarrow>
                 (let (statsError, s2, log2) =
                        (if length statsRows > 0
                         then (case upsert s1 (UpsertStats statsRows) of
                                 (e, s') \<Rightarrow> (e, s', [UpsertStats statsRows]))
                         else (None, s1, []))
                  in case statsError of
                       Some message \<Rightarrow>
                         Some (\<lparr>res_status = 500, res_body = ErrorBody message\<rparr>,
                               calls st, log1 @ log2)
                     | None \<Rightarrow>
                         Some (\<lparr>res_status = 200,
                                res_body = StatusMessage 200 ''Batch processing completed''\<rparr>,
                               calls st, log1 @ log2))))"

text \<open>Lines 171 to 222 of the handler: what it does once the bounds are accepted.\<close>

definition afterValidation ::
  "nat \<Rightarrow> (jsvalue \<Rightarrow> jsnumber) \<Rightarrow> 'u youtube \<Rightarrow> 's store \<Rightarrow> env \<Rightarrow> 'u \<Rightarrow> 's
     \<Rightarrow> (http_response \<times> api_call list \<times> store_call list) option" where
  "afterValidation fuel toNumber api upsert e u s =
     (if \<not> truthyStr (YOUTUBE_API_KEY e) then
        Some (\<lparr>res_status = 500,
               res_body = ErrorBody ''Server is not configured with YOUTUBE_API_KEY''\<rparr>,
              [], [])
      else if getSupabaseClient e = None then
        Some (\<lparr>res_status = 500,
               res_body = ErrorBody ''Server is not configured with Supabase credentials''\<rparr>,
              [], [])
      else refreshChannels fuel toNumber api upsert (the (YOUTUBE_API_KEY e)) u s)"

text \<open>The handler of the channel route.\<close>

definition GET ::
  "nat \<Rightarrow> (jsvalue \<Rightarrow> jsnumber) \<Rightarrow> 'u youtube \<Rightarrow> 's store \<Rightarrow> env \<Rightarrow> 'u \<Rightarrow> 's \<Rightarrow> request
     \<Rightarrow> (http_response \<times> api_call list \<times> store_call list) option" where
  "GET fuel toNumber api upsert e u s req =
     (case checkBounds toNumber req of
        Inl response \<Rightarrow> Some (response, [], [])
      | Inr (minS, maxS) \<Rightarrow> afterValidation fuel toNumber api upsert e u s)"

section \<open>The batch route's handler\<close>

text \<open>
  An item of the video search response: \<open>vi_id\<close> is \<open>item.id\<close>, holding
  \<open>videoId\<close>; \<open>vi_snippet\<close> is \<open>item.snippet\<close>.
\<close>

record video_snippet =
  vs_title :: "string option"
  publishedAt :: "string option"

record video_item =
  vi_id :: "string option option"
  vi_snippet :: "video_snippet option"

record video_data =
  vd_items :: "video_item list option"

text \<open>The two environment variables written into the url of the request.\<close>

record video_request =
  vr_channelId :: "string option"
  vr_key :: "string option"

text \<open>
  \<open>items.map(...)\<close> of lines 18 to 22; \<open>None\<close> is the TypeError of reading a property
  of an \<open>id\<close> or a \<open>snippet\<close> that is missing.
\<close>

fun videoRows :: "video_item list \<Rightarrow> videoRow list option" where
  "videoRows [] = Some []"
| "videoRows (item # rest) =
     (case vi_id item of
        None \<Rightarrow> None
      | Some vid \<Rightarrow>
         (case vi_snippet item of
            None \<Rightarrow> None
          | Some sn \<Rightarrow>
             (case videoRows rest of
                None \<Rightarrow> None
              | Some rows \<Rightarrow>
                  Some (\<lparr>video_id = vid, video_title = vs_title sn,
                         published_at = publishedAt sn\<rparr> # rows))))"

definition batchFailed :: http_response where
  "batchFailed = \<lparr>res_status = 500, res_body = ErrorBody ''batch failed''\<rparr>"

text \<open>
  The handler of the batch route: the response and the calls made to the store.
  \<open>createClient\<close> raises when the url or the key is missing or empty.
\<close>

definition GET_batch ::
  "('u \<Rightarrow> video_request \<Rightarrow> video_data fetched \<times> 'u) \<Rightarrow> 's store \<Rightarrow> env \<Rightarrow> 'u \<Rightarrow> 's
     \<Rightarrow> http_response \<times> store_call list" where
  "GET_batch fetchVideos upsert e u s =
     (case fetchVideos u \<lparr>vr_channelId = YT_CHANNEL_ID e, vr_key = YOUTUBE_API_KEY e\<rparr> of
        (Inl message, u') \<Rightarrow> (batchFailed, [])
      | (Inr youtubeRes, u') \<Rightarrow>
          if \<not> ok youtubeRes then (batchFailed, [])
          else
            (case json youtubeRes of
               Inl message \<Rightarrow> (batchFailed, [])
             | Inr data \<Rightarrow>
                 if \<not> truthyStr (SUPABASE_URL e) \<or> \<not> truthyStr (SUPABASE_SERVICE_ROLE_KEY e)
                 then (batchFailed, [])
                 else
                   (case vd_items data of
                      None \<Rightarrow> (batchFailed, [])
                    | Some items \<Rightarrow>
                       (case videoRows items of
                          None \<Rightarrow> (batchFailed, [])
                        | Some rows \<Rightarrow>
                           (case upsert s (UpsertVideos rows) of
                              (Some err, s') \<Rightarrow> (batchFailed, [UpsertVideos rows])
                            | (None, s') \<Rightarrow>
                                (\<lparr>res_status = 200, res_body = Inserted (length rows)\<rparr>,
                                 [UpsertVideos rows]))))))"

section \<open>Notions used in the statements\<close>

text \<open>The state a pass through the loop body ends in, and the message it throws, if any.\<close>

fun stateOf :: "'a step \<Rightarrow> 'a" where
  "stateOf (Continue s) = s"
| "stateOf (Break s) = s"
| "stateOf (Throw m s) = s"

fun thrownOf :: "'a step \<Rightarrow> string option" where
  "thrownOf (Throw m s) = Some m"
| "thrownOf _ = None"

fun thrownBy :: "(string + 'a) option \<Rightarrow> string option" where
  "thrownBy (Some (Inl m)) = Some m"
| "thrownBy _ = None"

text \<open>The state of the loop right after the search request of a pass is answered.\<close>

definition searched :: "'u youtube \<Rightarrow> string \<Rightarrow> 'u loop_state \<Rightarrow> 'u loop_state" where
  "searched api apiKey st =
     (case fetchSearch api (upstream st) (searchRequest apiKey st) of
        (res, u) \<Rightarrow> st\<lparr>upstream := u, calls := calls st @ [SearchCall (searchRequest apiKey st) res]\<rparr>)"

fun isSearchCall :: "api_call \<Rightarrow> bool" where
  "isSearchCall (SearchCall req res) = True"
| "isSearchCall (ChannelsCall req res) = False"

text \<open>The page sizes asked for by the search requests among the calls made.\<close>

fun pageSizes :: "api_call list \<Rightarrow> int list" where
  "pageSizes [] = []"
| "pageSizes (SearchCall req res # cs) = sr_maxResults req # pageSizes cs"
| "pageSizes (ChannelsCall req res # cs) = pageSizes cs"

text \<open>A call answered by a response that is not a success, and the error it is reported by.\<close>

fun failedCall :: "api_call \<Rightarrow> bool" where
  "failedCall (SearchCall req (Inr res)) = (\<not> ok res)"
| "failedCall (ChannelsCall req (Inr res)) = (\<not> ok res)"
| "failedCall _ = False"

fun apiErrorMessage :: "api_call \<Rightarrow> string" where
  "apiErrorMessage (SearchCall req (Inr res)) =
     ''YouTube search API error: '' @ decimal (status res) @ '' '' @ body_text res"
| "apiErrorMessage (ChannelsCall req (Inr res)) =
     ''YouTube channels API error: '' @ decimal (status res) @ '' '' @ body_text res"
| "apiErrorMessage _ = []"

text \<open>
  A failed call, if there is one among the calls made, is the last call and the error
  thrown carries its message.
\<close>

definition failureReported :: "string option \<Rightarrow> api_call list \<Rightarrow> bool" where
  "failureReported thrown cs =
     (\<forall>c \<in> set cs. failedCall c \<longrightarrow> thrown = Some (apiErrorMessage c) \<and> cs = butlast cs @ [c])"

text \<open>The two invariants of the loop: the cap and the page size, and the seen set.\<close>

definition boundedState :: "'u loop_state \<Rightarrow> bool" where
  "boundedState st =
     (length (collected st) \<le> MAX_RESULTS \<and>
      (\<forall>req r. SearchCall req r \<in> set (calls st)
         \<longrightarrow> 1 \<le> sr_maxResults req \<and> sr_maxResults req \<le> int CHUNK_SIZE))"

definition dedupState :: "'u loop_state \<Rightarrow> bool" where
  "dedupState st =
     (distinct (map id_ch (collected st)) \<and> id_ch ` set (collected st) \<subseteq> seen st)"

section \<open>An example world\<close>

text \<open>
  The values of \<open>Number(...)\<close> on the strings of the examples: four decimal numbers, and
  NaN for every other value, among them the string \<open>abc\<close>.
\<close>

definition exampleNumber :: "jsvalue \<Rightarrow> jsnumber" where
  "exampleNumber v =
     (if v = Str ''500'' then Num 500
      else if v = Str ''1200'' then Num 1200
      else if v = Str ''20000'' then Num 20000
      else if v = Str ''50000'' then Num 50000
      else NaN)"

definition exampleDetail :: "string \<Rightarrow> jsvalue \<Rightarrow> detail_item" where
  "exampleDetail i hidden =
     \<lparr>di_id = Some i,
      di_snippet = Some \<lparr>sn_title = Some (''Channel '' @ i), sn_customUrl = None,
                         sn_thumbnails = None, sn_country = Some ''JP''\<rparr>,
      di_statistics = Some \<lparr>hiddenSubscriberCount = hidden, st_subscriberCount = Str ''1200'',
                            st_viewCount = Str ''50000'', st_videoCount = Number (Num 34)\<rparr>,
      di_etag = None\<rparr>"

text \<open>
  Two search pages: the first repeats \<open>a\<close>, holds an item with no channel id and hands
  out the token \<open>P2\<close>; the second repeats \<open>b\<close> and hands out no token. The state of the
  upstream counts the requests answered.
\<close>

definition exampleSearch :: "nat \<Rightarrow> search_request \<Rightarrow> search_data fetched \<times> nat" where
  "exampleSearch n req =
     (Inr \<lparr>ok = True, status = 200, body_text = [],
           json = Inr (if sr_pageToken req = None
                       then \<lparr>sd_items = Some [\<lparr>channelId = Some ''a''\<rparr>, \<lparr>channelId = Some ''b''\<rparr>,
                                                \<lparr>channelId = Some ''a''\<rparr>, \<lparr>channelId = None\<rparr>,
                                                \<lparr>channelId = Some ''c''\<rparr>],
                             sd_nextPageToken = Some ''P2''\<rparr>
                       else \<lparr>sd_items = Some [\<lparr>channelId = Some ''b''\<rparr>, \<lparr>channelId = Some ''d''\<rparr>],
                             sd_nextPageToken = None\<rparr>)\<rparr>,
      Suc n)"

text \<open>
  The channels endpoint knows \<open>d\<close>, \<open>c\<close> (subscriber count hidden) and \<open>a\<close>, in that
  order, and not \<open>b\<close>.
\<close>

definition exampleChannels :: "nat \<Rightarrow> detail_request \<Rightarrow> detail_data fetched \<times> nat" where
  "exampleChannels n req =
     (Inr \<lparr>ok = True, status = 200, body_text = [],
           json = Inr \<lparr>dd_items = Some (filter (\<lambda>d. the (di_id d) \<in> set (dr_ids req))
                          [exampleDetail ''d'' (Bool False), exampleDetail ''c'' (Bool True),
                           exampleDetail ''a'' Undefined])\<rparr>\<rparr>,
      Suc n)"

definition exampleApi :: "nat youtube" where
  "exampleApi = \<lparr>fetchSearch = exampleSearch, fetchChannels = exampleChannels\<rparr>"

text \<open>A search endpoint that answers with one page and no token.\<close>

definition lastPageSearch :: "nat \<Rightarrow> search_request \<Rightarrow> search_data fetched \<times> nat" where
  "lastPageSearch n req =
     (Inr \<lparr>ok = True, status = 200, body_text = [],
           json = Inr \<lparr>sd_items = Some [\<lparr>channelId = Some ''a''\<rparr>, \<lparr>channelId = Some ''c''\<rparr>],
                       sd_nextPageToken = None\<rparr>\<rparr>,
      Suc n)"

definition lastPageApi :: "nat youtube" where
  "lastPageApi = \<lparr>fetchSearch = lastPageSearch, fetchChannels = exampleChannels\<rparr>"

text \<open>A search endpoint whose first page holds no channel id and hands out the token \<open>P2\<close>.\<close>

definition emptyPage :: "search_data http_res" where
  "emptyPage = \<lparr>ok = True, status = 200, body_text = [],
                json = Inr \<lparr>sd_items = Some [\<lparr>channelId = None\<rparr>],
                            sd_nextPageToken = Some ''P2''\<rparr>\<rparr>"

definition emptyPageSearch :: "nat \<Rightarrow> search_request \<Rightarrow> search_data fetched \<times> nat" where
  "emptyPageSearch n req =
     (if sr_pageToken req = None then (Inr emptyPage, Suc n) else lastPageSearch n req)"

definition emptyPageApi :: "nat youtube" where
  "emptyPageApi = \<lparr>fetchSearch = emptyPageSearch, fetchChannels = exampleChannels\<rparr>"

text \<open>A search endpoint that answers 403.\<close>

definition forbidden :: "search_data http_res" where
  "forbidden = \<lparr>ok = False, status = 403, body_text = ''quotaExceeded'',
                json = Inl ''Unexpected token''\<rparr>"

definition forbiddenApi :: "nat youtube" where
  "forbiddenApi = \<lparr>fetchSearch = (\<lambda>n req. (Inr forbidden, Suc n)),
                   fetchChannels = exampleChannels\<rparr>"

text \<open>A store that accepts every upsert and counts them; a configured environment.\<close>

definition exampleStore :: "nat store" where
  "exampleStore n c = (None, Suc n)"

definition exampleEnv :: env where
  "exampleEnv = \<lparr>YOUTUBE_API_KEY = Some ''key'', SUPABASE_URL = Some ''https://db.example'',
                 SUPABASE_SERVICE_ROLE_KEY = Some ''service'', SUPABASE_ANON_KEY = None,
                 YT_CHANNEL_ID = Some ''UC1''\<rparr>"

text \<open>A video search endpoint that answers with zero items.\<close>

definition noVideos :: "nat \<Rightarrow> video_request \<Rightarrow> video_data fetched \<times> nat" where
  "noVideos n req =
     (Inr \<lparr>ok = True, status = 200, body_text = [], json = Inr \<lparr>vd_items = Some []\<rparr>\<rparr>, Suc n)"

text \<open>A short view of a run of the handler: the response, which calls were searches, and
  how many calls the store received.\<close>

definition summary ::
  "(http_response \<times> api_call list \<times> store_call list) option
     \<Rightarrow> (http_response \<times> bool list \<times> nat) option" where
  "summary = map_option (\<lambda>(response, apiCalls, storeCalls).
               (response, map isSearchCall apiCalls, length storeCalls))"

section \<open>Properties\<close>

subsection \<open>Decimal text, the loop and its parts\<close>

lemma decimal_403: "decimal 403 = ''403''"
  by (simp add: decimal.simps)

lemma decimal_10000: "decimal 10000 = ''10000''"
  by (simp add: decimal.simps)

lemma fetchLoop_invariant:
  assumes "I st"
    and "\<And>s. I s \<Longrightarrow> length (collected s) < MAX_RESULTS \<Longrightarrow> I (stateOf (iteration toNumber api apiKey s))"
  shows "I (snd (fetchLoop fuel toNumber api apiKey st))"
  using assms(1)
proof (induction fuel arbitrary: st)
  case 0
  then show ?case by (simp add: fetchLoop.simps)
next
  case (Suc n)
  show ?case
  proof (cases "length (collected st) < MAX_RESULTS")
    case False
    then show ?thesis using Suc.prems by (simp add: fetchLoop.simps)
  next
    case True
    from assms(2)[OF Suc.prems True] have I': "I (stateOf (iteration toNumber api apiKey st))" .
    show ?thesis
    proof (cases "iteration toNumber api apiKey st")
      case (Continue s')
      with I' have "I s'" by simp
      from Suc.IH[OF this] show ?thesis using True Continue
        by (simp add: fetchLoop.simps[of "Suc n"])
    next
      case (Break s')
      with I' True show ?thesis by (simp add: fetchLoop.simps[of "Suc n"])
    next
      case (Throw m s')
      with I' True show ?thesis by (simp add: fetchLoop.simps[of "Suc n"])
    qed
  qed
qed

lemma collectCandidates_mono:
  "collectCandidates remaining items (cands, sn) = (cands', sn') \<Longrightarrow> set cands \<subseteq> set cands'"
proof (induction items arbitrary: cands sn)
  case Nil
  then show ?case by auto
next
  case (Cons item rest)
  then show ?case by (fastforce simp: Let_def split: if_splits)
qed

lemma collectCandidates_length:
  "int (length cands) < remaining \<Longrightarrow>
   int (length (fst (collectCandidates remaining items (cands, sn)))) \<le> remaining"
proof (induction items arbitrary: cands sn)
  case Nil
  then show ?case by simp
next
  case (Cons item rest)
  then show ?case by (auto simp: Let_def)
qed

lemma mergeDetails_append:
  "mergeDetails m ids coll = coll @ List.map_filter m ids"
  by (induction ids arbitrary: coll) (auto simp: List.map_filter_simps split: option.splits)

lemma length_map_filter_le: "length (List.map_filter m ids) \<le> length ids"
  by (simp add: List.map_filter_def)

lemma mergeDetails_length:
  "length (mergeDetails m ids coll) \<le> length coll + length ids"
  by (simp add: mergeDetails_append length_map_filter_le)

lemma collectCandidates_seen:
  "set cands \<subseteq> sn \<Longrightarrow> distinct cands \<Longrightarrow>
   collectCandidates remaining items (cands, sn) = (cands', sn') \<Longrightarrow>
   distinct cands' \<and> sn' = sn \<union> set cands' \<and> (set cands' - set cands) \<inter> sn = {}"
proof (induction items arbitrary: cands sn)
  case Nil
  then show ?case by auto
next
  case (Cons item rest)
  show ?case
  proof (cases "\<not> truthyStr (channelId item) \<or> the (channelId item) \<in> sn")
    case True
    with Cons.prems have "collectCandidates remaining rest (cands, sn) = (cands', sn')"
      by simp
    from Cons.IH[OF Cons.prems(1,2) this] show ?thesis .
  next
    case False
    let ?i = "the (channelId item)"
    from False have notin: "?i \<notin> sn" by simp
    with Cons.prems(1) have notc: "?i \<notin> set cands" by auto
    show ?thesis
    proof (cases "int (length (cands @ [?i])) \<ge> remaining")
      case True
      with False Cons.prems(3) have "cands' = cands @ [?i]" "sn' = insert ?i sn"
        by (simp_all add: Let_def)
      with Cons.prems(1,2) notin notc show ?thesis by auto
    next
      case F2: False
      with False Cons.prems(3)
      have rec: "collectCandidates remaining rest (cands @ [?i], insert ?i sn) = (cands', sn')"
        by (simp add: Let_def)
      have 1: "set (cands @ [?i]) \<subseteq> insert ?i sn" using Cons.prems(1) by auto
      have 2: "distinct (cands @ [?i])" using Cons.prems(2) notc by simp
      from Cons.IH[OF 1 2 rec]
      have d: "distinct cands'" and s: "sn' = insert ?i sn \<union> set cands'"
        and e: "(set cands' - set (cands @ [?i])) \<inter> insert ?i sn = {}" by auto
      have sub: "set (cands @ [?i]) \<subseteq> set cands'"
        using collectCandidates_mono rec by fastforce
      from d s e sub notin show ?thesis by auto
    qed
  qed
qed

subsection \<open>The cap and the page size\<close>

lemma afterSearch_collected_length:
  assumes "length (collected st) < MAX_RESULTS"
  shows "length (collected (stateOf (afterSearch toNumber api apiKey st sd))) \<le> MAX_RESULTS"
proof -
  let ?rem = "int MAX_RESULTS - int (length (collected st))"
  let ?its = "(case sd_items sd of None \<Rightarrow> [] | Some xs \<Rightarrow> xs)"
  obtain cands sn where cc: "collectCandidates ?rem ?its ([], seen st) = (cands, sn)"
    by (cases "collectCandidates ?rem ?its ([], seen st)")
  have "int (length (fst (collectCandidates ?rem ?its ([], seen st)))) \<le> ?rem"
    using assms by (intro collectCandidates_length) simp
  with cc have len: "length cands + length (collected st) \<le> MAX_RESULTS" by simp
  have "length (mergeDetails m cands (collected st)) \<le> MAX_RESULTS" for m
    using mergeDetails_length[of m cands "collected st"] len by linarith
  then show ?thesis using assms cc
    by (auto simp: afterSearch_def Let_def split: prod.splits sum.splits)
qed

lemma afterSearch_search_calls:
  "SearchCall req r \<in> set (calls (stateOf (afterSearch toNumber api apiKey st sd)))
   \<Longrightarrow> SearchCall req r \<in> set (calls st)"
  by (auto simp: afterSearch_def Let_def split: prod.splits sum.splits if_splits)

lemma iteration_state:
  "stateOf (iteration toNumber api apiKey st) = searched api apiKey st
   \<or> (\<exists>sd. stateOf (iteration toNumber api apiKey st)
            = stateOf (afterSearch toNumber api apiKey (searched api apiKey st) sd))"
  by (auto simp: iteration_def searched_def Let_def split: prod.splits sum.splits)

lemma searched_fields:
  "collected (searched api apiKey st) = collected st"
  "seen (searched api apiKey st) = seen st"
  "nextPageToken (searched api apiKey st) = nextPageToken st"
  "\<exists>res. calls (searched api apiKey st) = calls st @ [SearchCall (searchRequest apiKey st) res]"
  by (auto simp: searched_def split: prod.splits)

lemma iteration_bounded:
  assumes "boundedState st" and "length (collected st) < MAX_RESULTS"
  shows "boundedState (stateOf (iteration toNumber api apiKey st))"
proof -
  let ?req = "searchRequest apiKey st"
  let ?st1 = "searched api apiKey st"
  have req: "1 \<le> sr_maxResults ?req \<and> sr_maxResults ?req \<le> int CHUNK_SIZE"
    using assms(2) by (simp add: searchRequest_def CHUNK_SIZE_def MAX_RESULTS_def)
  obtain res where c1: "calls ?st1 = calls st @ [SearchCall ?req res]"
    using searched_fields(4)[of api apiKey st] by blast
  have b1: "boundedState ?st1"
    using assms(1) req by (auto simp: boundedState_def searched_fields(1) c1)
  have l1: "length (collected ?st1) < MAX_RESULTS"
    using assms(2) by (simp add: searched_fields)
  have after: "boundedState (stateOf (afterSearch toNumber api apiKey ?st1 sd))" for sd
    using afterSearch_collected_length[OF l1, of toNumber api apiKey sd]
      afterSearch_search_calls[of _ _ toNumber api apiKey ?st1 sd] b1
    unfolding boundedState_def by blast
  show ?thesis
    using iteration_state[of toNumber api apiKey st] b1 after by auto
qed

lemma fetchLoop_bounded:
  "boundedState st \<Longrightarrow> boundedState (snd (fetchLoop fuel toNumber api apiKey st))"
  by (rule fetchLoop_invariant[where I = boundedState]) (auto intro: iteration_bounded)

lemma fetchYouTubeChannels_state:
  "snd (fetchYouTubeChannels fuel toNumber api apiKey u)
     = snd (fetchLoop fuel toNumber api apiKey (initialState u))"
  by (simp add: fetchYouTubeChannels_def split: prod.splits option.splits sum.splits)

lemma fetchYouTubeChannels_result:
  "fst (fetchYouTubeChannels fuel toNumber api apiKey u) = Some (Inr channels)
   \<Longrightarrow> channels = take MAX_RESULTS
         (collected (snd (fetchLoop fuel toNumber api apiKey (initialState u))))"
  by (auto simp: fetchYouTubeChannels_def split: prod.splits option.splits sum.splits)

text \<open>
  Claim C3. Whatever the upstream answers and however many passes the loop is given, the
  list a discovery run returns holds at most 100 channels (\<open>collected\<close> itself never
  grows beyond 100), and every search request of the run asks for a page of at least 1
  and at most 50 results.
\<close>

theorem discovery_run_bounded:
  assumes "fetchYouTubeChannels fuel toNumber api apiKey u = (res, st)"
  shows "(\<forall>channels. res = Some (Inr channels) \<longrightarrow> length channels \<le> 100)
       \<and> length (collected st) \<le> 100
       \<and> (\<forall>req r. SearchCall req r \<in> set (calls st)
            \<longrightarrow> 1 \<le> sr_maxResults req \<and> sr_maxResults req \<le> 50)"
proof -
  have "boundedState (initialState u)"
    by (simp add: boundedState_def initialState_def)
  from fetchLoop_bounded[OF this, of fuel toNumber api apiKey]
  have "boundedState st"
    using assms fetchYouTubeChannels_state[of fuel toNumber api apiKey u] by simp
  moreover have "length channels \<le> 100" if "res = Some (Inr channels)" for channels
    using fetchYouTubeChannels_result[of fuel toNumber api apiKey u channels] assms that
    by (simp add: MAX_RESULTS_def)
  ultimately show ?thesis
    by (simp add: boundedState_def MAX_RESULTS_def CHUNK_SIZE_def)
qed

subsection \<open>The seen set\<close>

lemma channelOfItem_id: "id_ch (channelOfItem toNumber i item) = i"
  by (simp add: channelOfItem_def Let_def)

lemma buildDetailMap_keys:
  "(\<And>i c. m i = Some c \<Longrightarrow> id_ch c = i)
   \<Longrightarrow> buildDetailMap toNumber items m i = Some c \<Longrightarrow> id_ch c = i"
proof (induction items arbitrary: m)
  case Nil
  then show ?case by simp
next
  case (Cons item rest)
  show ?case
  proof (cases "truthyStr (di_id item)")
    case False
    with Cons.prems(2) have "buildDetailMap toNumber rest m i = Some c" by simp
    from Cons.IH[OF Cons.prems(1) this] show ?thesis by simp
  next
    case True
    let ?k = "the (di_id item)"
    let ?m = "m(?k \<mapsto> channelOfItem toNumber ?k item)"
    from True Cons.prems(2) have rec: "buildDetailMap toNumber rest ?m i = Some c" by simp
    have "\<And>j d. ?m j = Some d \<Longrightarrow> id_ch d = j"
      using Cons.prems(1) by (auto simp: channelOfItem_id split: if_splits)
    from Cons.IH[OF this rec] show ?thesis by simp
  qed
qed

lemma map_filter_ids:
  "(\<And>i c. m i = Some c \<Longrightarrow> id_ch c = i)
   \<Longrightarrow> map id_ch (List.map_filter m ids) = filter (\<lambda>i. m i \<noteq> None) ids"
  by (induction ids) (auto simp: List.map_filter_simps split: option.splits)

lemma afterSearch_dedup:
  assumes "dedupState st"
  shows "dedupState (stateOf (afterSearch toNumber api apiKey st sd))"
proof -
  let ?rem = "int MAX_RESULTS - int (length (collected st))"
  let ?its = "(case sd_items sd of None \<Rightarrow> [] | Some xs \<Rightarrow> xs)"
  obtain cands sn where cc: "collectCandidates ?rem ?its ([], seen st) = (cands, sn)"
    by (cases "collectCandidates ?rem ?its ([], seen st)")
  from collectCandidates_seen[OF _ _ cc]
  have d: "distinct cands" and sn: "sn = seen st \<union> set cands" and dj: "set cands \<inter> seen st = {}"
    by auto
  have merged: "distinct (map id_ch (mergeDetails (buildDetailMap toNumber its Map.empty) cands (collected st)))
     \<and> id_ch ` set (mergeDetails (buildDetailMap toNumber its Map.empty) cands (collected st)) \<subseteq> sn" for its
  proof -
    let ?m = "buildDetailMap toNumber its Map.empty"
    have keys: "\<And>i c. ?m i = Some c \<Longrightarrow> id_ch c = i"
      by (rule buildDetailMap_keys[of Map.empty]) simp_all
    have ids: "map id_ch (mergeDetails ?m cands (collected st))
                 = map id_ch (collected st) @ filter (\<lambda>i. ?m i \<noteq> None) cands"
      by (simp add: mergeDetails_append map_filter_ids[of ?m, OF keys])
    have "distinct (map id_ch (collected st) @ filter (\<lambda>i. ?m i \<noteq> None) cands)"
      using assms d dj by (auto simp: dedupState_def)
    moreover have "set (map id_ch (collected st) @ filter (\<lambda>i. ?m i \<noteq> None) cands) \<subseteq> sn"
      using assms sn by (auto simp: dedupState_def)
    ultimately show ?thesis unfolding ids[symmetric] by simp
  qed
  have base: "id_ch ` set (collected st) \<subseteq> sn" "distinct (map id_ch (collected st))"
    using assms sn by (auto simp: dedupState_def)
  show ?thesis
    using cc merged base
    by (auto simp: afterSearch_def Let_def dedupState_def split: prod.splits sum.splits)
qed

lemma iteration_dedup:
  assumes "dedupState st"
  shows "dedupState (stateOf (iteration toNumber api apiKey st))"
proof -
  have d1: "dedupState (searched api apiKey st)"
    using assms by (simp add: dedupState_def searched_fields)
  show ?thesis
    using iteration_state[of toNumber api apiKey st] d1
      afterSearch_dedup[OF d1, of toNumber api apiKey]
    by auto
qed

text \<open>
  Claim C4. Whatever the upstream answers, the channels a discovery run returns have
  pairwise different ids.
\<close>

theorem discovery_result_distinct:
  assumes "fetchYouTubeChannels fuel toNumber api apiKey u = (Some (Inr channels), st)"
  shows "distinct (map id_ch channels)"
proof -
  have "dedupState (initialState u)"
    by (simp add: dedupState_def initialState_def)
  then have "dedupState (snd (fetchLoop fuel toNumber api apiKey (initialState u)))"
    by (rule fetchLoop_invariant[where I = dedupState]) (auto intro: iteration_dedup)
  then have "distinct (map id_ch (take MAX_RESULTS
      (collected (snd (fetchLoop fuel toNumber api apiKey (initialState u))))))"
    by (simp add: dedupState_def take_map[symmetric] del: take_map)
  with fetchYouTubeChannels_result[of fuel toNumber api apiKey u channels] assms
  show ?thesis by simp
qed

subsection \<open>Responses that are not a success\<close>

lemma failureReported_snoc:
  "failureReported None cs \<Longrightarrow> (failedCall c \<Longrightarrow> thrown = Some (apiErrorMessage c))
   \<Longrightarrow> failureReported thrown (cs @ [c])"
  by (auto simp: failureReported_def butlast_append)

lemma afterSearch_failure:
  assumes "failureReported None (calls st)"
  shows "failureReported (thrownOf (afterSearch toNumber api apiKey st sd))
           (calls (stateOf (afterSearch toNumber api apiKey st sd)))"
proof -
  have snoc: "failureReported thrown (calls st @ [c])"
    if "failedCall c \<Longrightarrow> thrown = Some (apiErrorMessage c)" for thrown c
    using failureReported_snoc[OF assms] that by blast
  show ?thesis
    using assms
    by (auto simp: afterSearch_def Let_def split: prod.splits sum.splits intro!: snoc)
qed

lemma iteration_failure:
  assumes "failureReported None (calls st)"
  shows "failureReported (thrownOf (iteration toNumber api apiKey st))
           (calls (stateOf (iteration toNumber api apiKey st)))"
proof -
  have snoc: "failureReported thrown (calls st @ [c])"
    if "failedCall c \<Longrightarrow> thrown = Some (apiErrorMessage c)" for thrown c
    using failureReported_snoc[OF assms] that by blast
  have after: "failureReported (thrownOf (afterSearch toNumber api apiKey
                  (st\<lparr>upstream := u, calls := calls st @ [c]\<rparr>) sd))
           (calls (stateOf (afterSearch toNumber api apiKey
                  (st\<lparr>upstream := u, calls := calls st @ [c]\<rparr>) sd)))"
    if "\<not> failedCall c" for u c sd
    by (rule afterSearch_failure) (use snoc[of c None] that in simp)
  show ?thesis
    by (auto simp: iteration_def Let_def split: prod.splits sum.splits intro!: snoc after)
qed

lemma fetchLoop_failure:
  "failureReported None (calls st) \<Longrightarrow>
   failureReported (thrownBy (fst (fetchLoop fuel toNumber api apiKey st)))
     (calls (snd (fetchLoop fuel toNumber api apiKey st)))"
proof (induction fuel arbitrary: st)
  case 0
  then show ?case by (simp add: fetchLoop.simps)
next
  case (Suc n)
  show ?case
  proof (cases "length (collected st) < MAX_RESULTS")
    case False
    then show ?thesis using Suc.prems by (simp add: fetchLoop.simps)
  next
    case True
    note it = iteration_failure[OF Suc.prems, of toNumber api apiKey]
    show ?thesis
    proof (cases "iteration toNumber api apiKey st")
      case (Continue s')
      with it have "failureReported None (calls s')" by simp
      from Suc.IH[OF this] show ?thesis using True Continue
        by (simp add: fetchLoop.simps[of "Suc n"])
    next
      case (Break s')
      with it True show ?thesis by (simp add: fetchLoop.simps[of "Suc n"])
    next
      case (Throw m s')
      with it True show ?thesis by (simp add: fetchLoop.simps[of "Suc n"])
    qed
  qed
qed

lemma fetchYouTubeChannels_thrown:
  "thrownBy (fst (fetchYouTubeChannels fuel toNumber api apiKey u))
     = thrownBy (fst (fetchLoop fuel toNumber api apiKey (initialState u)))"
  by (simp add: fetchYouTubeChannels_def split: prod.splits option.splits sum.splits)

lemma thrownBy_Some: "thrownBy r = Some m \<Longrightarrow> r = Some (Inl m)"
  by (cases r rule: thrownBy.cases) simp_all

lemma fetchYouTubeChannels_failure:
  assumes "fetchYouTubeChannels fuel toNumber api apiKey u = (res, st)"
    and "c \<in> set (calls st)" and "failedCall c"
  shows "res = Some (Inl (apiErrorMessage c)) \<and> calls st = butlast (calls st) @ [c]"
proof -
  have "failureReported None (calls (initialState u))"
    by (simp add: failureReported_def initialState_def)
  from fetchLoop_failure[OF this, of fuel toNumber api apiKey]
  have "failureReported (thrownBy res) (calls st)"
    using assms(1) fetchYouTubeChannels_thrown[of fuel toNumber api apiKey u]
      fetchYouTubeChannels_state[of fuel toNumber api apiKey u] by simp
  with assms(2,3) have "thrownBy res = Some (apiErrorMessage c)"
    and "calls st = butlast (calls st) @ [c]"
    by (auto simp: failureReported_def)
  then show ?thesis by (simp add: thrownBy_Some)
qed

subsection \<open>Continuation tokens\<close>

lemma afterSearch_no_token:
  "\<not> truthyStr (sd_nextPageToken sd) \<Longrightarrow> afterSearch toNumber api apiKey st sd \<noteq> Continue s"
  by (auto simp: afterSearch_def Let_def split: prod.splits sum.splits)

lemma afterSearch_isSearchCall:
  "filter isSearchCall (calls (stateOf (afterSearch toNumber api apiKey st sd)))
     = filter isSearchCall (calls st)"
  by (auto simp: afterSearch_def Let_def split: prod.splits sum.splits)

lemma iteration_isSearchCall:
  "length (filter isSearchCall (calls (stateOf (iteration toNumber api apiKey st))))
     = Suc (length (filter isSearchCall (calls st)))"
proof -
  obtain res where c1: "calls (searched api apiKey st)
      = calls st @ [SearchCall (searchRequest apiKey st) res]"
    using searched_fields(4)[of api apiKey st] by blast
  show ?thesis
    using iteration_state[of toNumber api apiKey st]
    by (auto simp: afterSearch_isSearchCall c1)
qed

lemma iteration_no_token:
  assumes "\<And>v req searchRes w sd.
             fetchSearch api v req = (Inr searchRes, w) \<Longrightarrow> json searchRes = Inr sd
             \<Longrightarrow> \<not> truthyStr (sd_nextPageToken sd)"
  shows "iteration toNumber api apiKey st \<noteq> Continue s"
  using assms
  by (auto simp: iteration_def Let_def afterSearch_no_token split: prod.splits sum.splits)

text \<open>
  Claim C5. If no decoded search response carries a continuation token (the token is
  missing or empty), then a discovery run that may make at least one pass returns or
  throws, and it has made exactly one search request, however few channels it collected.
\<close>

theorem no_token_one_page:
  assumes "\<And>v req searchRes w sd.
             fetchSearch api v req = (Inr searchRes, w) \<Longrightarrow> json searchRes = Inr sd
             \<Longrightarrow> \<not> truthyStr (sd_nextPageToken sd)"
    and "0 < fuel"
    and "fetchYouTubeChannels fuel toNumber api apiKey u = (res, st)"
  shows "res \<noteq> None \<and> length (filter isSearchCall (calls st)) = 1"
proof -
  obtain n where fuel: "fuel = Suc n" using assms(2) by (cases fuel) auto
  let ?st0 = "initialState u"
  let ?it = "iteration toNumber api apiKey ?st0"
  have nc: "\<And>s. ?it \<noteq> Continue s"
    using iteration_no_token[of api toNumber apiKey ?st0] assms(1) by blast
  have guard: "length (collected ?st0) < MAX_RESULTS"
    by (simp add: initialState_def MAX_RESULTS_def)
  have loop: "fst (fetchLoop fuel toNumber api apiKey ?st0) \<noteq> None
      \<and> snd (fetchLoop fuel toNumber api apiKey ?st0) = stateOf ?it"
  proof (cases ?it)
    case (Continue s)
    with nc show ?thesis by blast
  next
    case (Break s)
    with guard show ?thesis unfolding fuel by (simp add: fetchLoop.simps[of "Suc n"])
  next
    case (Throw m s)
    with guard show ?thesis unfolding fuel by (simp add: fetchLoop.simps[of "Suc n"])
  qed
  have "length (filter isSearchCall (calls (stateOf ?it))) = 1"
    using iteration_isSearchCall[of toNumber api apiKey ?st0] by (simp add: initialState_def)
  moreover have "st = snd (fetchLoop fuel toNumber api apiKey ?st0)"
    using assms(3) fetchYouTubeChannels_state[of fuel toNumber api apiKey u] by simp
  moreover have "res \<noteq> None"
    using assms(3) loop
    by (auto simp: fetchYouTubeChannels_def split: prod.splits option.splits sum.splits)
  ultimately show ?thesis using loop by simp
qed

lemma collectCandidates_none_new:
  "\<forall>item \<in> set items. \<not> truthyStr (channelId item) \<or> the (channelId item) \<in> sn
   \<Longrightarrow> collectCandidates remaining items (cands, sn) = (cands, sn)"
  by (induction items) auto

text \<open>
  Claim C8. In a pass of the loop whose search page is a success and holds no item that
  has a channel id not yet seen, the loop goes on with the state \<open>st'\<close>, which differs
  from the state before only by the token, the upstream and the recorded call, when the
  page carries a continuation token; the next search request then carries that token.
  When the token is missing (or empty) the loop ends in \<open>st'\<close>.
\<close>

theorem empty_page_advances:
  assumes "length (collected st) < MAX_RESULTS"
    and "fetchSearch api (upstream st) (searchRequest apiKey st) = (Inr searchRes, w)"
    and "ok searchRes"
    and "json searchRes = Inr sd"
    and "\<forall>item \<in> set (case sd_items sd of None \<Rightarrow> [] | Some xs \<Rightarrow> xs).
           \<not> truthyStr (channelId item) \<or> the (channelId item) \<in> seen st"
    and "st' = st\<lparr>nextPageToken := sd_nextPageToken sd, upstream := w,
                   calls := calls st @ [SearchCall (searchRequest apiKey st) (Inr searchRes)]\<rparr>"
  shows "fetchLoop (Suc n) toNumber api apiKey st =
           (if truthyStr (sd_nextPageToken sd) then fetchLoop n toNumber api apiKey st'
            else (Some (Inr ()), st'))
       \<and> (truthyStr (sd_nextPageToken sd)
            \<longrightarrow> sr_pageToken (searchRequest apiKey st') = sd_nextPageToken sd)"
proof -
  let ?st1 = "st\<lparr>upstream := w,
                 calls := calls st @ [SearchCall (searchRequest apiKey st) (Inr searchRes)]\<rparr>"
  have cc: "collectCandidates (int MAX_RESULTS - int (length (collected ?st1)))
              (case sd_items sd of None \<Rightarrow> [] | Some xs \<Rightarrow> xs) ([], seen ?st1) = ([], seen ?st1)"
    using assms(5) by (intro collectCandidates_none_new) simp
  have after: "afterSearch toNumber api apiKey ?st1 sd =
           (if truthyStr (sd_nextPageToken sd) then Continue st' else Break st')"
    using cc by (simp add: afterSearch_def Let_def assms(6))
  have "iteration toNumber api apiKey st = afterSearch toNumber api apiKey ?st1 sd"
    using assms(2,3,4) by (simp add: iteration_def Let_def)
  with after assms(1) show ?thesis
    by (simp add: fetchLoop.simps[of "Suc n"] searchRequest_def assms(6))
qed

subsection \<open>Runs in the example world\<close>

lemma example_run:
  "(case fetchYouTubeChannels 5 exampleNumber exampleApi ''key'' 0 of
      (Some (Inr cs), st) \<Rightarrow>
         map id_ch cs = [''a'', ''c'', ''d''] \<and> pageSizes (calls st) = [50, 50]
    | _ \<Rightarrow> False)"
  by code_simp

lemma example_run_obtain:
  "\<exists>cs st. fetchYouTubeChannels 5 exampleNumber exampleApi ''key'' 0 = (Some (Inr cs), st)
     \<and> map id_ch cs = [''a'', ''c'', ''d''] \<and> pageSizes (calls st) = [50, 50]"
  using example_run by (auto split: prod.splits option.splits sum.splits)

text \<open>
  The run in the example world returns \<open>a\<close>, \<open>c\<close> and \<open>d\<close> after two searches
  that each ask for 50 results.
\<close>

theorem discovery_run_bounded_witness:
  "\<exists>cs st. fetchYouTubeChannels 5 exampleNumber exampleApi ''key'' 0 = (Some (Inr cs), st)
     \<and> map id_ch cs = [''a'', ''c'', ''d''] \<and> pageSizes (calls st) = [50, 50]
     \<and> length cs \<le> 100 \<and> length (collected st) \<le> 100"
proof -
  obtain cs st where
    run: "fetchYouTubeChannels 5 exampleNumber exampleApi ''key'' 0 = (Some (Inr cs), st)"
    and ids: "map id_ch cs = [''a'', ''c'', ''d'']"
    and sizes: "pageSizes (calls st) = [50, 50]"
    using example_run_obtain by auto
  from discovery_run_bounded[OF run] run ids sizes show ?thesis by auto
qed

text \<open>The three ids of the run in the example world are different.\<close>

theorem discovery_result_distinct_witness:
  "\<exists>cs st. fetchYouTubeChannels 5 exampleNumber exampleApi ''key'' 0 = (Some (Inr cs), st)
     \<and> map id_ch cs = [''a'', ''c'', ''d''] \<and> distinct (map id_ch cs)"
proof -
  obtain cs st where
    run: "fetchYouTubeChannels 5 exampleNumber exampleApi ''key'' 0 = (Some (Inr cs), st)"
    and ids: "map id_ch cs = [''a'', ''c'', ''d'']"
    using example_run_obtain by auto
  from discovery_result_distinct[OF run] run ids show ?thesis by auto
qed

lemma lastPage_run:
  "(case fst (fetchYouTubeChannels 1 exampleNumber lastPageApi ''key'' 0) of
      Some (Inr cs) \<Rightarrow> map id_ch cs = [''a'', ''c'']
    | _ \<Rightarrow> False)"
  by code_simp

text \<open>
  With the endpoint that never hands out a token, one pass is enough: the run returns two
  channels, far below the cap, after one search request.
\<close>

theorem no_token_one_page_witness:
  "\<not> (\<exists>v req searchRes w sd.
         fetchSearch lastPageApi v req = (Inr searchRes, w) \<and> json searchRes = Inr sd
         \<and> truthyStr (sd_nextPageToken sd))
   \<and> (\<exists>cs st. fetchYouTubeChannels 1 exampleNumber lastPageApi ''key'' 0 = (Some (Inr cs), st)
         \<and> map id_ch cs = [''a'', ''c'']
         \<and> length (filter isSearchCall (calls st)) = 1)"
proof -
  have h: "\<And>v req searchRes w sd.
       fetchSearch lastPageApi v req = (Inr searchRes, w) \<Longrightarrow> json searchRes = Inr sd
       \<Longrightarrow> \<not> truthyStr (sd_nextPageToken sd)"
    by (auto simp: lastPageApi_def lastPageSearch_def)
  obtain cs st where
    run: "fetchYouTubeChannels 1 exampleNumber lastPageApi ''key'' 0 = (Some (Inr cs), st)"
    and ids: "map id_ch cs = [''a'', ''c'']"
    using lastPage_run
    by (cases "fetchYouTubeChannels 1 exampleNumber lastPageApi ''key'' 0")
       (auto split: option.splits sum.splits)
  have "length (filter isSearchCall (calls st)) = 1"
    using no_token_one_page[of lastPageApi 1 exampleNumber "''key''" 0 "Some (Inr cs)" st, OF h _ run]
    by simp
  with h run ids show ?thesis by auto
qed

text \<open>
  Claim C6. If some call of a discovery run is answered by a response that is not a
  success, then that call is the last call of the run, the run throws the error that names
  its endpoint, its status and its body, and returns no channels; the handler, for a
  request whose bounds are accepted on a configured server, answers 500 with that message
  and makes no call to the store. The message of a search answered 403 starts with
  \<open>YouTube search API error: 403\<close>.
\<close>

theorem upstream_failure_aborts:
  assumes "fetchYouTubeChannels fuel toNumber api apiKey u = (res, st)"
    and "c \<in> set (calls st)" and "failedCall c"
    and "checkBounds toNumber req = Inr bounds"
    and "YOUTUBE_API_KEY e = Some apiKey" and "apiKey \<noteq> []"
    and "getSupabaseClient e = Some client"
  shows "res = Some (Inl (apiErrorMessage c))
       \<and> calls st = butlast (calls st) @ [c]
       \<and> GET fuel toNumber api upsert e u s req
           = Some (\<lparr>res_status = 500, res_body = ErrorBody (apiErrorMessage c)\<rparr>, calls st, [])
       \<and> (\<forall>q r. c = SearchCall q (Inr r) \<and> status r = 403
             \<longrightarrow> apiErrorMessage c = ''YouTube search API error: 403 '' @ body_text r)"
proof -
  from fetchYouTubeChannels_failure[OF assms(1,2,3)]
  have res: "res = Some (Inl (apiErrorMessage c))"
    and last: "calls st = butlast (calls st) @ [c]" by simp_all
  have "GET fuel toNumber api upsert e u s req
          = refreshChannels fuel toNumber api upsert apiKey u s"
    using assms(4,5,6,7) by (simp add: GET_def afterValidation_def split: prod.splits)
  also have "\<dots> = Some (\<lparr>res_status = 500, res_body = ErrorBody (apiErrorMessage c)\<rparr>, calls st, [])"
    using assms(1) res by (simp add: refreshChannels_def)
  finally show ?thesis using res last by (auto simp: decimal_403)
qed

lemma forbidden_run:
  "fetchYouTubeChannels 3 exampleNumber forbiddenApi ''key'' 0
     = (Some (Inl ''YouTube search API error: 403 quotaExceeded''),
        \<lparr>collected = [], seen = {}, nextPageToken = None, upstream = 1,
         calls = [SearchCall \<lparr>sr_maxResults = 50, sr_key = ''key'', sr_pageToken = None\<rparr>
                    (Inr forbidden)]\<rparr>)"
  by (simp add: fetchYouTubeChannels_def fetchLoop.simps iteration_def Let_def initialState_def
      forbiddenApi_def forbidden_def searchRequest_def MAX_RESULTS_def CHUNK_SIZE_def decimal_403)

text \<open>A search answered 403 in the example world.\<close>

theorem upstream_failure_aborts_witness:
  "failedCall (SearchCall \<lparr>sr_maxResults = 50, sr_key = ''key'', sr_pageToken = None\<rparr>
                 (Inr forbidden))
   \<and> GET 3 exampleNumber forbiddenApi exampleStore exampleEnv 0 0
         \<lparr>minSubscribers = None, maxSubscribers = None\<rparr>
       = Some (\<lparr>res_status = 500,
                res_body = ErrorBody ''YouTube search API error: 403 quotaExceeded''\<rparr>,
               [SearchCall \<lparr>sr_maxResults = 50, sr_key = ''key'', sr_pageToken = None\<rparr>
                  (Inr forbidden)], [])"
proof -
  let ?c = "SearchCall \<lparr>sr_maxResults = 50, sr_key = ''key'', sr_pageToken = None\<rparr> (Inr forbidden)"
  have f: "failedCall ?c" by (simp add: forbidden_def)
  have b: "checkBounds exampleNumber \<lparr>minSubscribers = None, maxSubscribers = None\<rparr>
             = Inr (0, 10000)"
    by (simp add: checkBounds_def parseBound_def MAX_ALLOWED_SUBSCRIBERS_def)
  have k: "YOUTUBE_API_KEY exampleEnv = Some ''key''" by (simp add: exampleEnv_def)
  have cl: "getSupabaseClient exampleEnv = Some (''https://db.example'', ''service'')"
    by (simp add: getSupabaseClient_def exampleEnv_def)
  have m: "apiErrorMessage ?c = ''YouTube search API error: 403 quotaExceeded''"
    by (simp add: forbidden_def decimal_403)
  from upstream_failure_aborts[OF forbidden_run _ f b k _ cl, of exampleStore 0] f m
  show ?thesis by simp
qed

subsection \<open>The bounds\<close>

text \<open>
  Claim C7, as amended. Both parameters are parsed before either is compared, so the
  claim holds with the proviso that \<open>maxSubscribers\<close> parses. A request whose lower
  bound parses to more than 10000 is answered 400 and nothing else is done. When the upper
  bound parses too, the message of that answer is
  \<open>minSubscribers must be less than or equal to 10000\<close>, whereas an upper bound above
  10000, with a lower bound of at most 10000, is replaced by 10000 and the handler goes on
  to the part after the validation.
\<close>

theorem bound_validation_asymmetric:
  assumes "parseBound toNumber (minSubscribers req) 0 = Inr minS"
  shows "(minS > 10000 \<longrightarrow>
            (\<exists>message. GET fuel toNumber api upsert e u s req
                = Some (\<lparr>res_status = 400, res_body = ErrorBody message\<rparr>, [], [])))
       \<and> (\<forall>maxS. parseBound toNumber (maxSubscribers req) MAX_ALLOWED_SUBSCRIBERS = Inr maxS \<longrightarrow>
            (minS > 10000 \<longrightarrow>
               GET fuel toNumber api upsert e u s req
                 = Some (\<lparr>res_status = 400,
                          res_body = ErrorBody
                            ''minSubscribers must be less than or equal to 10000''\<rparr>,
                         [], []))
            \<and> (minS \<le> 10000 \<and> maxS > 10000 \<longrightarrow>
                 checkBounds toNumber req = Inr (minS, 10000)
                 \<and> GET fuel toNumber api upsert e u s req
                     = afterValidation fuel toNumber api upsert e u s))"
proof -
  have rejected: "\<exists>message. GET fuel toNumber api upsert e u s req
                = Some (\<lparr>res_status = 400, res_body = ErrorBody message\<rparr>, [], [])"
    if "minS > 10000"
    using assms that
    by (cases "parseBound toNumber (maxSubscribers req) MAX_ALLOWED_SUBSCRIBERS")
       (simp_all add: GET_def checkBounds_def MAX_ALLOWED_SUBSCRIBERS_def)
  have parsed: "(minS > 10000 \<longrightarrow>
               GET fuel toNumber api upsert e u s req
                 = Some (\<lparr>res_status = 400,
                          res_body = ErrorBody
                            ''minSubscribers must be less than or equal to 10000''\<rparr>,
                         [], []))
            \<and> (minS \<le> 10000 \<and> maxS > 10000 \<longrightarrow>
                 checkBounds toNumber req = Inr (minS, 10000)
                 \<and> GET fuel toNumber api upsert e u s req
                     = afterValidation fuel toNumber api upsert e u s)"
    if "parseBound toNumber (maxSubscribers req) MAX_ALLOWED_SUBSCRIBERS = Inr maxS" for maxS
    using assms that
    by (simp add: GET_def checkBounds_def MAX_ALLOWED_SUBSCRIBERS_def decimal_10000)
  from rejected parsed show ?thesis by blast
qed

lemma parseBound_examples:
  "parseBound exampleNumber None fallback = Inr fallback"
  "parseBound exampleNumber (Some ''500'') fallback = Inr 500"
  "parseBound exampleNumber (Some ''20000'') fallback = Inr 20000"
  "parseBound exampleNumber (Some ''50000'') fallback = Inr 50000"
  by (simp_all add: parseBound_def exampleNumber_def trim_def isWhiteSpace_def)

text \<open>
  \<open>minSubscribers=20000\<close> is rejected; \<open>minSubscribers=500&maxSubscribers=50000\<close> is
  clamped and accepted.
\<close>

theorem bound_validation_asymmetric_witness:
  "GET 5 exampleNumber exampleApi exampleStore exampleEnv 0 0
       \<lparr>minSubscribers = Some ''20000'', maxSubscribers = None\<rparr>
     = Some (\<lparr>res_status = 400,
              res_body = ErrorBody ''minSubscribers must be less than or equal to 10000''\<rparr>,
             [], [])
   \<and> checkBounds exampleNumber \<lparr>minSubscribers = Some ''500'', maxSubscribers = Some ''50000''\<rparr>
       = Inr (500, 10000)
   \<and> GET 5 exampleNumber exampleApi exampleStore exampleEnv 0 0
       \<lparr>minSubscribers = Some ''500'', maxSubscribers = Some ''50000''\<rparr>
     = afterValidation 5 exampleNumber exampleApi exampleStore exampleEnv 0 0"
  using bound_validation_asymmetric[of exampleNumber
          "\<lparr>minSubscribers = Some ''20000'', maxSubscribers = None\<rparr>" 20000
          5 exampleApi exampleStore exampleEnv 0 0]
        bound_validation_asymmetric[of exampleNumber
          "\<lparr>minSubscribers = Some ''500'', maxSubscribers = Some ''50000''\<rparr>" 500
          5 exampleApi exampleStore exampleEnv 0 0]
  by (simp add: parseBound_examples MAX_ALLOWED_SUBSCRIBERS_def)

text \<open>
  Without the proviso the claim fails: for \<open>minSubscribers=20000&maxSubscribers=abc\<close> the
  lower bound parses to 20000, above 10000, and the answer is 400 with the message of the
  parameter that does not parse.
\<close>

theorem bound_message_counterexample:
  "parseBound exampleNumber (Some ''20000'') 0 = Inr 20000
   \<and> (20000::rat) > 10000
   \<and> parseBound exampleNumber (Some ''abc'') MAX_ALLOWED_SUBSCRIBERS
       = Inl ''Invalid numeric parameter''
   \<and> GET 5 exampleNumber exampleApi exampleStore exampleEnv 0 0
         \<lparr>minSubscribers = Some ''20000'', maxSubscribers = Some ''abc''\<rparr>
       = Some (\<lparr>res_status = 400, res_body = ErrorBody ''Invalid numeric parameter''\<rparr>, [], [])
   \<and> GET 5 exampleNumber exampleApi exampleStore exampleEnv 0 0
         \<lparr>minSubscribers = Some ''20000'', maxSubscribers = Some ''abc''\<rparr>
       \<noteq> Some (\<lparr>res_status = 400,
                res_body = ErrorBody ''minSubscribers must be less than or equal to 10000''\<rparr>,
               [], [])"
  by (simp add: GET_def checkBounds_def parseBound_def exampleNumber_def trim_def
      isWhiteSpace_def)

text \<open>
  Claim C2. Two requests whose bounds are both accepted, served in the same environment
  against the same upstream and the same store, give the same response, the same calls to
  the upstream and the same calls to the store, rows included: the bounds do not filter.
\<close>

theorem bounds_never_filter:
  assumes "checkBounds toNumber req1 = Inr bounds1"
    and "checkBounds toNumber req2 = Inr bounds2"
  shows "GET fuel toNumber api upsert e u s req1 = GET fuel toNumber api upsert e u s req2"
  using assms by (simp add: GET_def split: prod.splits)

lemma example_GET:
  "summary (GET 5 exampleNumber exampleApi exampleStore exampleEnv 0 0
              \<lparr>minSubscribers = None, maxSubscribers = None\<rparr>)
     = Some (\<lparr>res_status = 200, res_body = StatusMessage 200 ''Batch processing completed''\<rparr>,
             [True, False, True, False], 2)"
  by code_simp

text \<open>
  The bounds 500 to 50000 and the default bounds give the same run: the answer 200 after
  two searches, two detail requests and two upserts.
\<close>

theorem bounds_never_filter_witness:
  "checkBounds exampleNumber \<lparr>minSubscribers = None, maxSubscribers = None\<rparr> = Inr (0, 10000)
   \<and> checkBounds exampleNumber \<lparr>minSubscribers = Some ''500'', maxSubscribers = Some ''50000''\<rparr>
       = Inr (500, 10000)
   \<and> GET 5 exampleNumber exampleApi exampleStore exampleEnv 0 0
         \<lparr>minSubscribers = Some ''500'', maxSubscribers = Some ''50000''\<rparr>
       = GET 5 exampleNumber exampleApi exampleStore exampleEnv 0 0
           \<lparr>minSubscribers = None, maxSubscribers = None\<rparr>
   \<and> summary (GET 5 exampleNumber exampleApi exampleStore exampleEnv 0 0
                 \<lparr>minSubscribers = Some ''500'', maxSubscribers = Some ''50000''\<rparr>)
       = Some (\<lparr>res_status = 200, res_body = StatusMessage 200 ''Batch processing completed''\<rparr>,
               [True, False, True, False], 2)"
proof -
  have b1: "checkBounds exampleNumber \<lparr>minSubscribers = None, maxSubscribers = None\<rparr>
              = Inr (0, 10000)"
    by (simp add: checkBounds_def parseBound_examples MAX_ALLOWED_SUBSCRIBERS_def)
  have b2: "checkBounds exampleNumber
              \<lparr>minSubscribers = Some ''500'', maxSubscribers = Some ''50000''\<rparr> = Inr (500, 10000)"
    by (simp add: checkBounds_def parseBound_examples MAX_ALLOWED_SUBSCRIBERS_def)
  note eq = bounds_never_filter[OF b2 b1, of 5 exampleApi exampleStore exampleEnv 0 0]
  show ?thesis using b1 b2 eq example_GET by simp
qed

subsection \<open>A page with nothing new\<close>

text \<open>
  The first page of this endpoint holds one item without a channel id: the loop goes on
  to the second pass with the token \<open>P2\<close>.
\<close>

theorem empty_page_advances_witness:
  "fetchSearch emptyPageApi (upstream (initialState 0)) (searchRequest ''key'' (initialState 0))
     = (Inr emptyPage, 1)
   \<and> fetchLoop 2 exampleNumber emptyPageApi ''key'' (initialState 0)
       = fetchLoop 1 exampleNumber emptyPageApi ''key''
           \<lparr>collected = [], seen = {}, nextPageToken = Some ''P2'', upstream = 1,
            calls = [SearchCall \<lparr>sr_maxResults = 50, sr_key = ''key'', sr_pageToken = None\<rparr>
                       (Inr emptyPage)]\<rparr>
   \<and> sr_pageToken (searchRequest ''key''
         \<lparr>collected = [], seen = {}, nextPageToken = Some ''P2'', upstream = (1::nat),
          calls = [SearchCall \<lparr>sr_maxResults = 50, sr_key = ''key'', sr_pageToken = None\<rparr>
                     (Inr emptyPage)]\<rparr>) = Some ''P2''"
  using empty_page_advances[of "initialState 0" emptyPageApi "''key''" emptyPage 1
          "\<lparr>sd_items = Some [\<lparr>channelId = None\<rparr>], sd_nextPageToken = Some ''P2''\<rparr>"
          "\<lparr>collected = [], seen = {}, nextPageToken = Some ''P2'', upstream = 1,
            calls = [SearchCall \<lparr>sr_maxResults = 50, sr_key = ''key'', sr_pageToken = None\<rparr>
                       (Inr emptyPage)]\<rparr>" 1 exampleNumber]
  by (simp add: initialState_def emptyPageApi_def emptyPageSearch_def emptyPage_def
      searchRequest_def MAX_RESULTS_def CHUNK_SIZE_def numeral_2_eq_2)

subsection \<open>Merging the details\<close>

lemma buildDetailMap_dom:
  "dom (buildDetailMap toNumber items m) = dom m \<union> {i. i \<noteq> [] \<and> Some i \<in> di_id ` set items}"
proof (induction items arbitrary: m)
  case Nil
  then show ?case by simp
next
  case (Cons item rest)
  let ?S = "\<lambda>xs. {i. i \<noteq> [] \<and> Some i \<in> di_id ` set xs}"
  show ?case
  proof (cases "truthyStr (di_id item)")
    case False
    then have "?S (item # rest) = ?S rest"
      by (cases "di_id item") auto
    with False Cons.IH[of m] show ?thesis by simp
  next
    case True
    then obtain i where i: "di_id item = Some i" "i \<noteq> []"
      by (cases "di_id item") auto
    then have S: "?S (item # rest) = insert i (?S rest)" by auto
    have "buildDetailMap toNumber (item # rest) m
            = buildDetailMap toNumber rest (m(i \<mapsto> channelOfItem toNumber i item))"
      using i by simp
    then have "dom (buildDetailMap toNumber (item # rest) m)
            = dom (m(i \<mapsto> channelOfItem toNumber i item)) \<union> ?S rest"
      by (simp only: Cons.IH)
    also have "\<dots> = dom m \<union> insert i (?S rest)" by auto
    finally show ?thesis unfolding S .
  qed
qed

text \<open>
  Claim C9. The merge appends to \<open>collected\<close> the detail records of the candidate ids,
  in the order of the candidate ids, leaving out the ids that have no record: the ids of
  the appended records are the candidate ids filtered by the keys of the detail map, and
  these keys are the non-empty ids of the items of the detail response.
\<close>

theorem merge_in_discovery_order:
  "mergeDetails detailMap candidateIds coll = coll @ List.map_filter detailMap candidateIds
   \<and> map id_ch (List.map_filter (buildDetailMap toNumber items Map.empty) candidateIds)
       = filter (\<lambda>i. i \<in> dom (buildDetailMap toNumber items Map.empty)) candidateIds
   \<and> dom (buildDetailMap toNumber items Map.empty)
       = {i. i \<noteq> [] \<and> Some i \<in> di_id ` set items}"
proof -
  let ?m = "buildDetailMap toNumber items Map.empty"
  have keys: "\<And>i c. ?m i = Some c \<Longrightarrow> id_ch c = i"
    by (rule buildDetailMap_keys[of Map.empty]) simp_all
  have "(\<lambda>i. ?m i \<noteq> None) = (\<lambda>i. i \<in> dom ?m)" by (auto simp: dom_def)
  with map_filter_ids[of ?m candidateIds, OF keys]
  have "map id_ch (List.map_filter ?m candidateIds) = filter (\<lambda>i. i \<in> dom ?m) candidateIds"
    by simp
  then show ?thesis
    by (simp add: mergeDetails_append buildDetailMap_dom)
qed

text \<open>
  The response lists \<open>c\<close> before \<open>a\<close> and does not know \<open>b\<close>; the merge of the
  candidates \<open>a\<close>, \<open>b\<close>, \<open>c\<close> gives \<open>a\<close>, \<open>c\<close>.
\<close>

theorem merge_in_discovery_order_witness:
  "map id_ch (mergeDetails
     (buildDetailMap exampleNumber
        [exampleDetail ''c'' (Bool True), exampleDetail ''a'' Undefined] Map.empty)
     [''a'', ''b'', ''c''] []) = [''a'', ''c'']"
  using merge_in_discovery_order[of
      "buildDetailMap exampleNumber
         [exampleDetail ''c'' (Bool True), exampleDetail ''a'' Undefined] Map.empty"
      "[''a'', ''b'', ''c'']" "[]" exampleNumber
      "[exampleDetail ''c'' (Bool True), exampleDetail ''a'' Undefined]"]
  by (simp add: exampleDetail_def)

subsection \<open>Hidden subscriber counts\<close>

text \<open>
  Claim C10. For an item whose statistics carry a truthy \<open>hiddenSubscriberCount\<close>, the
  channel record has no \<open>subscriberCount\<close> and its statistics row has no
  \<open>subscriber_count\<close>, whatever \<open>statistics.subscriberCount\<close> holds; \<open>viewCount\<close> and
  \<open>videoCount\<close> are the numbers read from the statistics, whatever the flag is.
\<close>

theorem hidden_subscriber_count:
  assumes "di_statistics item = Some stats"
    and "truthy (hiddenSubscriberCount stats)"
  shows "subscriberCount (channelOfItem toNumber i item) = None
       \<and> subscriber_count (toStatsRow (channelOfItem toNumber i item)) = None
       \<and> (\<forall>flag. viewCount (channelOfItem toNumber i
                     (item\<lparr>di_statistics := Some (stats\<lparr>hiddenSubscriberCount := flag\<rparr>)\<rparr>))
                   = numberOrUndefined toNumber (st_viewCount stats)
                \<and> videoCount (channelOfItem toNumber i
                     (item\<lparr>di_statistics := Some (stats\<lparr>hiddenSubscriberCount := flag\<rparr>)\<rparr>))
                   = numberOrUndefined toNumber (st_videoCount stats))
       \<and> view_count (toStatsRow (channelOfItem toNumber i item))
           = numberOrUndefined toNumber (st_viewCount stats)
       \<and> video_count (toStatsRow (channelOfItem toNumber i item))
           = numberOrUndefined toNumber (st_videoCount stats)"
  using assms by (simp add: channelOfItem_def toStatsRow_def Let_def)

text \<open>The statistics of \<open>c\<close> report 1200 subscribers and hide them.\<close>

theorem hidden_subscriber_count_witness:
  "truthy (Bool True)
   \<and> numberOrUndefined exampleNumber (Str ''1200'') = Some 1200
   \<and> subscriberCount (channelOfItem exampleNumber ''c'' (exampleDetail ''c'' (Bool True))) = None
   \<and> subscriber_count (toStatsRow
        (channelOfItem exampleNumber ''c'' (exampleDetail ''c'' (Bool True)))) = None
   \<and> view_count (toStatsRow
        (channelOfItem exampleNumber ''c'' (exampleDetail ''c'' (Bool True)))) = Some 50000
   \<and> video_count (toStatsRow
        (channelOfItem exampleNumber ''c'' (exampleDetail ''c'' (Bool True)))) = Some 34"
  using hidden_subscriber_count[of "exampleDetail ''c'' (Bool True)"
          "\<lparr>hiddenSubscriberCount = Bool True, st_subscriberCount = Str ''1200'',
            st_viewCount = Str ''50000'', st_videoCount = Number (Num 34)\<rparr>"
          exampleNumber "''c''"]
  by (simp add: exampleDetail_def numberOrUndefined_def exampleNumber_def)

subsection \<open>Empty row sets\<close>

text \<open>The channel route makes no call to the store when no channel was discovered.\<close>

lemma channel_route_skips_empty_upsert:
  assumes "fetchYouTubeChannels fuel toNumber api apiKey u = (Some (Inr []), st)"
  shows "refreshChannels fuel toNumber api upsert apiKey u s
           = Some (\<lparr>res_status = 200,
                    res_body = StatusMessage 200 ''Batch processing completed''\<rparr>, calls st, [])"
  using assms by (simp add: refreshChannels_def)

text \<open>
  Claim C1. The batch route has no such guard: when the upstream answers with zero items,
  it still calls the store, with an empty row set, before it answers \<open>inserted: 0\<close>.
\<close>

theorem batch_route_upserts_empty_rows:
  "GET_batch noVideos exampleStore exampleEnv 0 0
     = (\<lparr>res_status = 200, res_body = Inserted 0\<rparr>, [UpsertVideos []])"
  by (simp add: GET_batch_def noVideos_def exampleStore_def exampleEnv_def)

text \<open>In that run the store has received a call.\<close>

theorem batch_route_upserts_empty_rows_witness:
  "snd (GET_batch noVideos exampleStore exampleEnv 0 0) \<noteq> []
   \<and> res_body (fst (GET_batch noVideos exampleStore exampleEnv 0 0)) = Inserted 0"
  using batch_route_upserts_empty_rows by simp

end
